theory Spec2Isabelle
  imports Complex_Main "HOL-Library.Product_Lexorder" "HOL-Library.Multiset"
begin

section \<open>Data model (src/lib/supabase.ts)\<close>

text \<open>
  Identifiers are the strings the backend hands out. A timestamp is kept as the instant
  it denotes (milliseconds since the epoch): the source receives it as an ISO string and
  reads it only through \<^verbatim>\<open>new Date(s).getTime()\<close>, and the backend orders by the instant.
  A nullable column (\<^verbatim>\<open>string | null\<close>) and an optional field (\<^verbatim>\<open>f?: t\<close>) are options.
  A field whose name is shared by several interfaces (\<^verbatim>\<open>id\<close>, \<^verbatim>\<open>created_at\<close>,
  \<^verbatim>\<open>updated_at\<close>) carries the initial of its interface.
\<close>

type_synonym uuid = string
type_synonym timestamp = int

record profile =
  pr_id :: uuid
  username :: string
  email :: string
  is_admin :: bool
  pr_created_at :: timestamp
  bio :: "string option"
  avatar_url :: "string option"
  display_name :: "string option"
  pr_updated_at :: "timestamp option"

record post =
  p_id :: uuid
  title :: string
  content :: "string option"
  url :: "string option"
  author_id :: uuid
  score :: int
  created_at :: timestamp
  updated_at :: timestamp

record vote =
  v_id :: uuid
  user_id :: uuid
  post_id :: uuid
  vote_type :: int
  v_created_at :: timestamp

record postWithAuthor = post +
  author_username :: "string option"
  user_vote :: "int option"

section \<open>The backend collaborator\<close>

text \<open>
  Every query the components build is one request. The record store keeps the three
  tables and, in \<open>requests\<close>, the requests it has received, oldest first.
\<close>

datatype request =
    SelectVote uuid uuid
  | DeleteVote uuid
  | UpdateVote uuid int
  | InsertVote uuid uuid int
  | DeleteVotesOfPost uuid
  | DeletePost uuid
  | SelectFeedPosts
  | SelectProfilesIn "uuid list"
  | SelectVotesOfUser uuid
  | InsertPost string uuid "string option" "string option"

record backend =
  votes :: "vote list"
  posts :: "post list"
  profiles :: "profile list"
  requests :: "request list"

text \<open>
  What the components cannot decide is supplied by the environment of one handler run:
  which requests the backend turns down and with what message, and the identifier and
  the time the backend gives a row it inserts.
\<close>

record env =
  rejects :: "request \<Rightarrow> bool"
  reject_message :: string
  gen_id :: uuid
  now :: timestamp

datatype backend_error = BackendError (message: string)

record 'a response =
  data :: "'a option"
  error :: "backend_error option"

definition issue :: "request \<Rightarrow> backend \<Rightarrow> backend" where
  "issue r b = b\<lparr>requests := requests b @ [r]\<rparr>"

definition failed :: "string \<Rightarrow> 'a response" where
  "failed msg = \<lparr>data = None, error = Some (BackendError msg)\<rparr>"

definition done_empty :: "'a response" where
  "done_empty = \<lparr>data = None, error = None\<rparr>"

text \<open>
  The record storage itself is the hosted service and not part of the repository. Its
  operations are modelled from section 6 of the specification (select-with-filter,
  single-or-none fetch, insert, update-by-filter, delete-by-filter, ordering by one or
  more fields). A request the backend turns down changes no table and answers with an
  error and no data.
\<close>

text \<open>
  Modelled from the spec: the single-or-none fetch of the backend collaborator. It
  answers with the row when exactly one matches, with nothing when none does, and with
  an error and no data when several do.
\<close>

definition maybeSingle :: "'a list \<Rightarrow> 'a response" where
  "maybeSingle rows =
     (case rows of
        [] \<Rightarrow> done_empty
      | [r] \<Rightarrow> \<lparr>data = Some r, error = None\<rparr>
      | _ \<Rightarrow> failed ''JSON object requested, multiple (or no) rows returned'')"

text \<open>
  Modelled from the spec: the backend's select-with-filter on the vote collection,
  \<^verbatim>\<open>from('votes').select('*').eq('user_id', u).eq('post_id', p).maybeSingle()\<close>.
\<close>

definition select_vote :: "env \<Rightarrow> uuid \<Rightarrow> uuid \<Rightarrow> backend \<Rightarrow> vote response \<times> backend" where
  "select_vote e u p b =
     (let q = SelectVote u p in
      if rejects e q then (failed (reject_message e), issue q b)
      else (maybeSingle (filter (\<lambda>v. user_id v = u \<and> post_id v = p) (votes b)), issue q b))"

text \<open>
  Modelled from the spec: the backend's delete-by-filter on the vote collection,
  \<^verbatim>\<open>from('votes').delete().eq('id', i)\<close>.
\<close>

definition delete_vote :: "env \<Rightarrow> uuid \<Rightarrow> backend \<Rightarrow> unit response \<times> backend" where
  "delete_vote e i b =
     (let q = DeleteVote i in
      if rejects e q then (failed (reject_message e), issue q b)
      else (done_empty, issue q (b\<lparr>votes := filter (\<lambda>v. v_id v \<noteq> i) (votes b)\<rparr>)))"

text \<open>
  Modelled from the spec: the backend's update-by-filter on the vote collection,
  \<^verbatim>\<open>from('votes').update({vote_type: t}).eq('id', i)\<close>.
\<close>

definition update_vote :: "env \<Rightarrow> uuid \<Rightarrow> int \<Rightarrow> backend \<Rightarrow> unit response \<times> backend" where
  "update_vote e i t b =
     (let q = UpdateVote i t in
      if rejects e q then (failed (reject_message e), issue q b)
      else (done_empty,
            issue q (b\<lparr>votes := map (\<lambda>v. if v_id v = i then v\<lparr>vote_type := t\<rparr> else v) (votes b)\<rparr>)))"

text \<open>
  Modelled from the spec: the backend's insert on the vote collection,
  \<^verbatim>\<open>from('votes').insert({user_id: u, post_id: p, vote_type: t})\<close>. The backend fills in
  the identifier and the creation time. The identifier is the primary key: an insert
  that would repeat one is turned down.
\<close>

definition insert_vote :: "env \<Rightarrow> uuid \<Rightarrow> uuid \<Rightarrow> int \<Rightarrow> backend \<Rightarrow> unit response \<times> backend" where
  "insert_vote e u p t b =
     (let q = InsertVote u p t in
      if rejects e q \<or> gen_id e \<in> set (map v_id (votes b)) then (failed (reject_message e), issue q b)
      else (done_empty,
            issue q (b\<lparr>votes := votes b @
              [\<lparr>v_id = gen_id e, user_id = u, post_id = p, vote_type = t, v_created_at = now e\<rparr>]\<rparr>)))"

text \<open>
  Modelled from the spec: the backend's delete-by-filter on the vote collection,
  \<^verbatim>\<open>from('votes').delete().eq('post_id', p)\<close>.
\<close>

definition delete_votes_of_post :: "env \<Rightarrow> uuid \<Rightarrow> backend \<Rightarrow> unit response \<times> backend" where
  "delete_votes_of_post e p b =
     (let q = DeleteVotesOfPost p in
      if rejects e q then (failed (reject_message e), issue q b)
      else (done_empty, issue q (b\<lparr>votes := filter (\<lambda>v. post_id v \<noteq> p) (votes b)\<rparr>)))"

text \<open>
  Modelled from the spec: the backend's delete-by-filter on the post collection,
  \<^verbatim>\<open>from('posts').delete().eq('id', p)\<close>.
\<close>

definition delete_post :: "env \<Rightarrow> uuid \<Rightarrow> backend \<Rightarrow> unit response \<times> backend" where
  "delete_post e p b =
     (let q = DeletePost p in
      if rejects e q then (failed (reject_message e), issue q b)
      else (done_empty, issue q (b\<lparr>posts := filter (\<lambda>x. p_id x \<noteq> p) (posts b)\<rparr>)))"

section \<open>PostCard (src/components/PostCard.tsx)\<close>

text \<open>
  The state of one card: what \<^verbatim>\<open>useAuth()\<close> gives it (the signed-in user's id, the
  profile), its \<^verbatim>\<open>post\<close> prop and its two in-flight flags. \<open>alerts\<close> keeps the
  texts of the \<^verbatim>\<open>alert(...)\<close> dialogs the card has raised.
\<close>

record postCard =
  user :: "uuid option"
  card_profile :: "profile option"
  card_post :: postWithAuthor
  voting :: bool
  deleting :: bool
  alerts :: "string list"

text \<open>
  \<^verbatim>\<open>handleVote(voteType)\<close>, run from the click to the \<^verbatim>\<open>finally\<close> block. The backend
  client resolves every request with a \<^verbatim>\<open>{data, error}\<close> pair and the handler reads
  only \<^verbatim>\<open>data\<close> of the lookup. The parent's \<^verbatim>\<open>onVote\<close> callback, which reloads the
  parent's list, is where the model of the handler ends.
\<close>

definition handleVote :: "env \<Rightarrow> int \<Rightarrow> postCard \<times> backend \<Rightarrow> postCard \<times> backend" where
  "handleVote e voteType s =
     (case s of (c, b) \<Rightarrow>
        (case user c of
           None \<Rightarrow> (c, b)
         | Some u \<Rightarrow>
             if voting c then (c, b)
             else
               (let (res, b1) = select_vote e u (p_id (card_post c)) b;
                    b2 = (case data res of
                            Some existingVote \<Rightarrow>
                              if vote_type existingVote = voteType
                              then snd (delete_vote e (v_id existingVote) b1)
                              else snd (update_vote e (v_id existingVote) voteType b1)
                          | None \<Rightarrow> snd (insert_vote e u (p_id (card_post c)) voteType b1))
                in (c\<lparr>voting := False\<rparr>, b2))))"

text \<open>
  \<^verbatim>\<open>handleDelete()\<close>; \<open>confirmed\<close> is the answer to the \<^verbatim>\<open>window.confirm\<close> dialog.
  \<^verbatim>\<open>profile?.is_admin\<close> is false when there is no profile.
\<close>

definition handleDelete :: "env \<Rightarrow> bool \<Rightarrow> postCard \<times> backend \<Rightarrow> postCard \<times> backend" where
  "handleDelete e confirmed s =
     (case s of (c, b) \<Rightarrow>
        if \<not> (case card_profile c of None \<Rightarrow> False | Some pr \<Rightarrow> is_admin pr) \<or> deleting c
        then (c, b)
        else if \<not> confirmed then (c, b)
        else
          (let (votesRes, b1) = delete_votes_of_post e (p_id (card_post c)) b;
               (postRes, b2) = delete_post e (p_id (card_post c)) b1
           in (case error postRes of
                 Some err \<Rightarrow>
                   (c\<lparr>deleting := False,
                      alerts := alerts c @
                        [''Failed to delete post: '' @
                           (if message err = [] then ''Unknown error'' else message err)]\<rparr>, b2)
               | None \<Rightarrow> (c\<lparr>deleting := False\<rparr>, b2))))"

text \<open>The invariant of the vote table: at most one row per (user, post) pair.\<close>

definition one_vote_per_pair :: "vote list \<Rightarrow> bool" where
  "one_vote_per_pair vs = distinct (map (\<lambda>v. (user_id v, post_id v)) vs)"

definition vote_of :: "uuid \<Rightarrow> uuid \<Rightarrow> vote list \<Rightarrow> vote option" where
  "vote_of u p vs = find (\<lambda>v. user_id v = u \<and> post_id v = p) vs"

section \<open>FeedPage: loading the feed\<close>

text \<open>
  Modelled from the spec: the ordering by several fields of the backend collaborator
  (section 6), as \<^verbatim>\<open>.order('score', {ascending: false}).order('created_at', {ascending: false})\<close>
  asks for it: the rows by descending score and, among equal scores, by descending
  creation time; rows equal in both keep their table order.
\<close>

definition feed_order :: "post list \<Rightarrow> post list" where
  "feed_order ps = sort_key (\<lambda>p. (- score p, - created_at p)) ps"

text \<open>
  Modelled from the spec: the backend's ordered select on the post collection,
  \<^verbatim>\<open>from('posts').select('*')\<close> with the two \<^verbatim>\<open>order\<close> clauses above.
\<close>

definition select_feed_posts :: "env \<Rightarrow> backend \<Rightarrow> post list response \<times> backend" where
  "select_feed_posts e b =
     (let q = SelectFeedPosts in
      if rejects e q then (failed (reject_message e), issue q b)
      else (\<lparr>data = Some (feed_order (posts b)), error = None\<rparr>, issue q b))"

text \<open>
  Modelled from the spec: the backend's select-with-filter on the profile collection,
  \<^verbatim>\<open>from('profiles').select('id, username').in('id', ids)\<close>; a select of named columns
  answers with those columns only.
\<close>

definition select_profiles_in ::
  "env \<Rightarrow> uuid list \<Rightarrow> backend \<Rightarrow> (uuid \<times> string) list response \<times> backend" where
  "select_profiles_in e ids b =
     (let q = SelectProfilesIn ids in
      if rejects e q then (failed (reject_message e), issue q b)
      else (\<lparr>data = Some (map (\<lambda>pr. (pr_id pr, username pr))
                           (filter (\<lambda>pr. pr_id pr \<in> set ids) (profiles b))),
             error = None\<rparr>, issue q b))"

text \<open>
  Modelled from the spec: the backend's select-with-filter on the vote collection,
  \<^verbatim>\<open>from('votes').select('post_id, vote_type').eq('user_id', u)\<close>.
\<close>

definition select_votes_of_user ::
  "env \<Rightarrow> uuid \<Rightarrow> backend \<Rightarrow> (uuid \<times> int) list response \<times> backend" where
  "select_votes_of_user e u b =
     (let q = SelectVotesOfUser u in
      if rejects e q then (failed (reject_message e), issue q b)
      else (\<lparr>data = Some (map (\<lambda>v. (post_id v, vote_type v))
                           (filter (\<lambda>v. user_id v = u) (votes b))),
             error = None\<rparr>, issue q b))"

text \<open>\<^verbatim>\<open>[...new Set(xs)]\<close>: the elements of \<open>xs\<close>, each at its first occurrence.\<close>

definition uniq :: "'a list \<Rightarrow> 'a list" where
  "uniq xs = rev (remdups (rev xs))"

text \<open>\<^verbatim>\<open>{...post, author_username: a, user_vote: v}\<close>\<close>

definition with_author :: "post \<Rightarrow> string option \<Rightarrow> int option \<Rightarrow> postWithAuthor" where
  "with_author p a v = post.extend p (postWithAuthor.fields a v)"

text \<open>
  \<^verbatim>\<open>x || 'Unknown'\<close> on a string that may be undefined, and \<^verbatim>\<open>x || 0\<close> on a number
  that may be undefined: the empty string and zero are falsy as well.
\<close>

definition or_unknown :: "string option \<Rightarrow> string" where
  "or_unknown x = (case x of None \<Rightarrow> ''Unknown'' | Some s \<Rightarrow> if s = [] then ''Unknown'' else s)"

definition or_zero :: "int option \<Rightarrow> int" where
  "or_zero x = (case x of None \<Rightarrow> 0 | Some n \<Rightarrow> if n = 0 then 0 else n)"

text \<open>\<^verbatim>\<open>profiles?.find(p => p.id === post.author_id)?.username || 'Unknown'\<close>\<close>

definition author_username_of :: "(uuid \<times> string) list option \<Rightarrow> post \<Rightarrow> string" where
  "author_username_of profs p =
     or_unknown
       (case profs of
          None \<Rightarrow> None
        | Some rows \<Rightarrow> map_option snd (find (\<lambda>r. fst r = author_id p) rows))"

text \<open>\<^verbatim>\<open>userVotes.find(v => v.post_id === post.id)?.vote_type || 0\<close>\<close>

definition user_vote_of :: "(uuid \<times> int) list \<Rightarrow> post \<Rightarrow> int" where
  "user_vote_of userVotes p = or_zero (map_option snd (find (\<lambda>v. fst v = p_id p) userVotes))"

record feedPage =
  fp_user :: "uuid option"
  fp_posts :: "postWithAuthor list"
  fp_loading :: bool
  refreshing :: bool

text \<open>
  \<^verbatim>\<open>loadPosts()\<close> of the feed page. A failed post query is thrown and caught, which
  leaves the posts of the page as they were; the other two queries are read through
  \<^verbatim>\<open>data\<close> only.
\<close>

definition loadPosts :: "env \<Rightarrow> feedPage \<times> backend \<Rightarrow> feedPage \<times> backend" where
  "loadPosts e s =
     (case s of (f, b) \<Rightarrow>
        (let (postsRes, b1) = select_feed_posts e b in
         case error postsRes of
           Some postsError \<Rightarrow> (f\<lparr>fp_loading := False, refreshing := False\<rparr>, b1)
         | None \<Rightarrow>
             (case data postsRes of
                None \<Rightarrow> (f\<lparr>fp_posts := [], fp_loading := False, refreshing := False\<rparr>, b1)
              | Some postsData \<Rightarrow>
                  if length postsData > 0 then
                    (let authorIds = uniq (map author_id postsData);
                         (profRes, b2) = select_profiles_in e authorIds b1;
                         (userVotes, b3) =
                            (case fp_user f of
                               None \<Rightarrow> ([], b2)
                             | Some u \<Rightarrow>
                                 (let (votesRes, b3) = select_votes_of_user e u b2
                                  in (case data votesRes of None \<Rightarrow> [] | Some vs \<Rightarrow> vs, b3)));
                         postsWithAuthors =
                            map (\<lambda>post. with_author post
                                   (Some (author_username_of (data profRes) post))
                                   (Some (user_vote_of userVotes post))) postsData
                     in (f\<lparr>fp_posts := postsWithAuthors, fp_loading := False,
                           refreshing := False\<rparr>, b3))
                  else (f\<lparr>fp_posts := [], fp_loading := False, refreshing := False\<rparr>, b1))))"

section \<open>ProfilePage: statistics, filter and sort\<close>

text \<open>
  Scores are integers; their sum and the length of the list are exact as JavaScript
  numbers. The quotient and its rendering are the language's floating-point primitives
  (\<^verbatim>\<open>/\<close> and \<^verbatim>\<open>Number.prototype.toFixed\<close>) and are parameters of \<open>avgScore\<close>.
\<close>

definition totalKarma :: "postWithAuthor list \<Rightarrow> int" where
  "totalKarma ps = foldl (\<lambda>sum post. sum + score post) 0 ps"

definition avgScore ::
  "(int \<Rightarrow> int \<Rightarrow> 'num) \<Rightarrow> ('num \<Rightarrow> nat \<Rightarrow> string) \<Rightarrow> postWithAuthor list \<Rightarrow> string" where
  "avgScore js_div toFixed ps =
     (if length ps > 0 then toFixed (js_div (totalKarma ps) (int (length ps))) 1 else ''0'')"

definition topPost :: "postWithAuthor list \<Rightarrow> postWithAuthor option" where
  "topPost ps =
     (case ps of
        [] \<Rightarrow> None
      | p # rest \<Rightarrow> Some (foldl (\<lambda>max post. if score post > score max then post else max) p rest))"

datatype sortType = Newest | Oldest | Highest | Lowest

datatype filterType = FilterAll | FilterText | FilterLink

text \<open>The truthiness of a nullable string: neither null nor empty.\<close>

definition truthy :: "string option \<Rightarrow> bool" where
  "truthy s = (case s of None \<Rightarrow> False | Some x \<Rightarrow> x \<noteq> [])"

text \<open>
  \<^verbatim>\<open>applyFiltersAndSort()\<close>. \<^verbatim>\<open>Array.prototype.sort\<close> is stable, and each comparator is
  the difference of one integer key of the two posts, so the result is the stable
  ordering by that key (negated for the descending orders).
\<close>

definition sort_key_of :: "sortType \<Rightarrow> postWithAuthor \<Rightarrow> int" where
  "sort_key_of sortBy p =
     (case sortBy of
        Newest \<Rightarrow> - created_at p
      | Oldest \<Rightarrow> created_at p
      | Highest \<Rightarrow> - score p
      | Lowest \<Rightarrow> score p)"

definition applyFiltersAndSort ::
  "sortType \<Rightarrow> filterType \<Rightarrow> postWithAuthor list \<Rightarrow> postWithAuthor list" where
  "applyFiltersAndSort sortBy filterBy ps =
     (let filtered =
        (if filterBy = FilterText then filter (\<lambda>p. truthy (content p) \<and> \<not> truthy (url p)) ps
         else if filterBy = FilterLink then filter (\<lambda>p. truthy (url p)) ps
         else ps)
      in sort_key (sort_key_of sortBy) filtered)"

section \<open>CreatePostForm\<close>

datatype postType = Text | Link

record createPostForm =
  cf_user :: "uuid option"
  cf_postType :: postType
  cf_title :: string
  cf_content :: string
  cf_url :: string
  cf_loading :: bool
  cf_error :: string

record newPost =
  np_title :: string
  np_author_id :: uuid
  np_content :: "string option"
  np_url :: "string option"

text \<open>
  The object \<^verbatim>\<open>postData\<close> of \<^verbatim>\<open>handleSubmit\<close>. \<open>trim\<close> is
  \<^verbatim>\<open>String.prototype.trim\<close>, a parameter.
\<close>

definition postData :: "(string \<Rightarrow> string) \<Rightarrow> createPostForm \<Rightarrow> uuid \<Rightarrow> newPost" where
  "postData trim f u =
     \<lparr>np_title = trim (cf_title f),
      np_author_id = u,
      np_content = (if cf_postType f = Text then Some (trim (cf_content f)) else None),
      np_url = (if cf_postType f = Link then Some (trim (cf_url f)) else None)\<rparr>"

text \<open>
  Modelled from the spec: the backend's insert on the post collection,
  \<^verbatim>\<open>from('posts').insert(postData)\<close>. The backend fills in the identifier, a score of
  zero and the two timestamps; the identifier is the primary key.
\<close>

definition insert_post :: "env \<Rightarrow> newPost \<Rightarrow> backend \<Rightarrow> unit response \<times> backend" where
  "insert_post e d b =
     (let q = InsertPost (np_title d) (np_author_id d) (np_content d) (np_url d) in
      if rejects e q \<or> gen_id e \<in> set (map p_id (posts b)) then (failed (reject_message e), issue q b)
      else (done_empty,
            issue q (b\<lparr>posts := posts b @
              [\<lparr>p_id = gen_id e, title = np_title d, content = np_content d, url = np_url d,
                author_id = np_author_id d, score = 0, created_at = now e,
                updated_at = now e\<rparr>]\<rparr>)))"

definition handleSubmit ::
  "(string \<Rightarrow> string) \<Rightarrow> env \<Rightarrow> createPostForm \<times> backend \<Rightarrow> createPostForm \<times> backend" where
  "handleSubmit trim e s =
     (case s of (f, b) \<Rightarrow>
        (case cf_user f of
           None \<Rightarrow> (f, b)
         | Some u \<Rightarrow>
             (let (res, b1) = insert_post e (postData trim f u) b in
              case error res of
                Some insertError \<Rightarrow>
                  (f\<lparr>cf_error := (if message insertError = [] then ''Failed to create post''
                                   else message insertError),
                     cf_loading := False\<rparr>, b1)
              | None \<Rightarrow>
                  (f\<lparr>cf_title := [], cf_content := [], cf_url := [], cf_error := [],
                     cf_loading := False\<rparr>, b1))))"

section \<open>Sample data\<close>

definition fx_env :: env where
  "fx_env = \<lparr>rejects = (\<lambda>r. False), reject_message = ''denied'', gen_id = ''v9'', now = 1000\<rparr>"

definition fx_post :: postWithAuthor where
  "fx_post = \<lparr>p_id = ''p1'', title = ''Hello'', content = Some ''first post'', url = None,
     author_id = ''u2'', score = 0, created_at = 5, updated_at = 5,
     author_username = Some ''bob'', user_vote = Some 0\<rparr>"

definition fx_card :: postCard where
  "fx_card = \<lparr>user = Some ''u1'', card_profile = None, card_post = fx_post,
     voting = False, deleting = False, alerts = []\<rparr>"

definition fx_vote :: "int \<Rightarrow> vote" where
  "fx_vote t = \<lparr>v_id = ''v1'', user_id = ''u1'', post_id = ''p1'', vote_type = t, v_created_at = 10\<rparr>"

definition fx_store :: "vote list \<Rightarrow> backend" where
  "fx_store vs = \<lparr>votes = vs, posts = [post.truncate fx_post], profiles = [], requests = []\<rparr>"

definition fx_admin :: profile where
  "fx_admin = \<lparr>pr_id = ''u3'', username = ''root'', email = ''root@example.org'', is_admin = True,
     pr_created_at = 1, bio = None, avatar_url = None, display_name = None, pr_updated_at = None\<rparr>"

definition fx_votes3 :: "vote list" where
  "fx_votes3 =
     [\<lparr>v_id = ''v1'', user_id = ''u1'', post_id = ''p1'', vote_type = 1, v_created_at = 10\<rparr>,
      \<lparr>v_id = ''v2'', user_id = ''u1'', post_id = ''p2'', vote_type = - 1, v_created_at = 11\<rparr>,
      \<lparr>v_id = ''v3'', user_id = ''u2'', post_id = ''p1'', vote_type = - 1, v_created_at = 12\<rparr>]"

definition fx_env_no_vote_delete :: env where
  "fx_env_no_vote_delete =
     \<lparr>rejects = (\<lambda>r. r = DeleteVotesOfPost ''p1''), reject_message = ''denied'',
      gen_id = ''v9'', now = 1000\<rparr>"

definition fx_env_no_lookup :: env where
  "fx_env_no_lookup =
     \<lparr>rejects = (\<lambda>r. r = SelectVote ''u1'' ''p1''), reject_message = ''fetch failed'',
      gen_id = ''v9'', now = 1000\<rparr>"

definition fx_bob :: profile where
  "fx_bob = \<lparr>pr_id = ''u2'', username = ''bob'', email = ''bob@example.org'', is_admin = False,
     pr_created_at = 2, bio = None, avatar_url = None, display_name = Some ''Bobby'',
     pr_updated_at = None\<rparr>"

definition fx_posts3 :: "post list" where
  "fx_posts3 =
     [\<lparr>p_id = ''p1'', title = ''Hello'', content = Some ''first post'', url = None,
       author_id = ''u2'', score = 0, created_at = 5, updated_at = 5\<rparr>,
      \<lparr>p_id = ''p2'', title = ''A link'', content = None, url = Some ''https://example.org'',
       author_id = ''u4'', score = 3, created_at = 7, updated_at = 7\<rparr>,
      \<lparr>p_id = ''p3'', title = ''Title only'', content = Some '''', url = None,
       author_id = ''u2'', score = 3, created_at = 9, updated_at = 9\<rparr>]"

definition fx_blog :: backend where
  "fx_blog = \<lparr>votes = fx_votes3, posts = fx_posts3, profiles = [fx_bob], requests = []\<rparr>"

definition fx_feed :: feedPage where
  "fx_feed = \<lparr>fp_user = Some ''u1'', fp_posts = [], fp_loading = True, refreshing = False\<rparr>"

definition fx_form :: createPostForm where
  "fx_form = \<lparr>cf_user = Some ''u2'', cf_postType = Text, cf_title = ''Title only'',
     cf_content = '''', cf_url = ''https://example.org'', cf_loading = False, cf_error = ''''\<rparr>"

text \<open>
  The two number primitives at the arguments the sample uses: \<^verbatim>\<open>22 / 4\<close> is \<^verbatim>\<open>5.5\<close>,
  exactly, and \<^verbatim>\<open>(5.5).toFixed(1)\<close> is \<^verbatim>\<open>"5.5"\<close>.
\<close>

definition fx_js_div :: "int \<Rightarrow> int \<Rightarrow> rat" where
  "fx_js_div a b = of_int a / of_int b"

definition fx_toFixed :: "rat \<Rightarrow> nat \<Rightarrow> string" where
  "fx_toFixed x d = (if x = 11 / 2 \<and> d = 1 then ''5.5'' else [])"

definition fx_scored :: "string \<Rightarrow> int \<Rightarrow> postWithAuthor" where
  "fx_scored i s = \<lparr>p_id = i, title = ''t'', content = Some ''c'', url = None,
     author_id = ''u2'', score = s, created_at = 5, updated_at = 5,
     author_username = Some ''bob'', user_vote = Some 0\<rparr>"

definition fx_annotated :: "postWithAuthor list" where
  "fx_annotated = map (\<lambda>p. with_author p (Some ''bob'') (Some 0)) fx_posts3"

section \<open>Facts about the record store\<close>


lemma filter_key_distinct:
  "distinct (map f xs) \<Longrightarrow>
   filter (\<lambda>x. f x = k) xs = (case find (\<lambda>x. f x = k) xs of None \<Rightarrow> [] | Some x \<Rightarrow> [x])"
proof (induction xs)
  case Nil
  then show ?case by simp
next
  case (Cons a xs)
  show ?case
  proof (cases "f a = k")
    case True
    from Cons.prems have "f a \<notin> f ` set xs" by simp
    with True have "\<forall>x\<in>set xs. f x \<noteq> k" by blast
    then have "filter (\<lambda>x. f x = k) xs = []" by (simp add: filter_empty_conv)
    with True show ?thesis by simp
  next
    case False
    with Cons show ?thesis by simp
  qed
qed

lemma votes_of_pair:
  assumes "one_vote_per_pair vs"
  shows "filter (\<lambda>v. user_id v = u \<and> post_id v = p) vs =
         (case vote_of u p vs of None \<Rightarrow> [] | Some v \<Rightarrow> [v])"
proof -
  have "filter (\<lambda>v. (user_id v, post_id v) = (u, p)) vs =
        (case find (\<lambda>v. (user_id v, post_id v) = (u, p)) vs of None \<Rightarrow> [] | Some v \<Rightarrow> [v])"
    using assms unfolding one_vote_per_pair_def by (rule filter_key_distinct)
  then show ?thesis by (simp add: vote_of_def)
qed

lemma select_vote_data:
  assumes "one_vote_per_pair (votes b)" and "\<not> rejects e (SelectVote u p)"
  shows "select_vote e u p b =
           (\<lparr>data = vote_of u p (votes b), error = None\<rparr>, issue (SelectVote u p) b)"
  using assms
  by (simp add: select_vote_def Let_def votes_of_pair maybeSingle_def done_empty_def
      split: option.splits)

lemma vote_of_Some:
  "vote_of u p vs = Some v \<Longrightarrow> v \<in> set vs \<and> user_id v = u \<and> post_id v = p"
  by (auto simp: vote_of_def find_Some_iff)

lemma vote_of_None:
  "vote_of u p vs = None \<longleftrightarrow> (\<forall>v\<in>set vs. \<not> (user_id v = u \<and> post_id v = p))"
  by (auto simp: vote_of_def find_None_iff)

lemma handleVote_run:
  assumes "user c = Some u" and "\<not> voting c"
    and "one_vote_per_pair (votes b)"
    and "\<not> rejects e (SelectVote u (p_id (card_post c)))"
  shows "handleVote e t (c, b) =
     (c\<lparr>voting := False\<rparr>,
      (case vote_of u (p_id (card_post c)) (votes b) of
         Some v \<Rightarrow> if vote_type v = t
                   then snd (delete_vote e (v_id v) (issue (SelectVote u (p_id (card_post c))) b))
                   else snd (update_vote e (v_id v) t (issue (SelectVote u (p_id (card_post c))) b))
       | None \<Rightarrow> snd (insert_vote e u (p_id (card_post c)) t (issue (SelectVote u (p_id (card_post c))) b))))"
  using assms by (simp add: handleVote_def select_vote_data)

lemma remove_by_key:
  "distinct (map f xs) \<Longrightarrow> v \<in> set xs \<Longrightarrow> filter (\<lambda>x. f x \<noteq> f v) xs = remove1 v xs"
proof (induction xs)
  case Nil
  then show ?case by simp
next
  case (Cons a xs)
  show ?case
  proof (cases "a = v")
    case True
    from Cons.prems have "f a \<notin> f ` set xs" by simp
    with True have "\<forall>x\<in>set xs. f x \<noteq> f v" by (metis imageI)
    then have "filter (\<lambda>x. f x \<noteq> f v) xs = xs" by (simp add: filter_id_conv)
    with True show ?thesis by simp
  next
    case False
    with Cons.prems have "v \<in> set xs" by simp
    moreover from Cons.prems have "f a \<notin> f ` set xs" by simp
    ultimately have "f a \<noteq> f v" by (metis imageI)
    with Cons False \<open>v \<in> set xs\<close> show ?thesis by simp
  qed
qed

lemma update_by_key:
  assumes "distinct (map f xs)" and "v \<in> set xs"
  shows "map (\<lambda>x. if f x = f v then g x else x) xs = map (\<lambda>x. if x = v then g x else x) xs"
proof (rule map_cong[OF refl])
  fix x assume "x \<in> set xs"
  from assms(1) have "inj_on f (set xs)" by (simp add: distinct_map)
  with \<open>x \<in> set xs\<close> assms(2) have "f x = f v \<longleftrightarrow> x = v" by (auto dest: inj_onD)
  then show "(if f x = f v then g x else x) = (if x = v then g x else x)" by simp
qed

lemma find_append_cases:
  "find P (xs @ ys) = (case find P xs of None \<Rightarrow> find P ys | Some x \<Rightarrow> Some x)"
  by (induction xs) simp_all

lemma find_map_stable:
  assumes "\<And>x. P (f x) = P x"
  shows "find P (map f xs) = map_option f (find P xs)"
  using assms by (induction xs) simp_all

lemmas fx_defs = fx_env_def fx_post_def fx_card_def fx_vote_def fx_store_def

section \<open>The vote handler\<close>

lemma handleVote_first_vote:
  assumes "user c = Some u" and "\<not> voting c"
    and "vote_of u (p_id (card_post c)) (votes b) = None"
    and "gen_id e \<notin> set (map v_id (votes b))"
    and "\<not> rejects e (SelectVote u (p_id (card_post c)))"
    and "\<not> rejects e (InsertVote u (p_id (card_post c)) t)"
  shows "handleVote e t (c, b) =
     (c\<lparr>voting := False\<rparr>,
      b\<lparr>votes := votes b @ [\<lparr>v_id = gen_id e, user_id = u, post_id = p_id (card_post c),
                               vote_type = t, v_created_at = now e\<rparr>],
        requests := requests b @
          [SelectVote u (p_id (card_post c)), InsertVote u (p_id (card_post c)) t]\<rparr>)"
proof -
  from assms(3) have "filter (\<lambda>v. user_id v = u \<and> post_id v = p_id (card_post c)) (votes b) = []"
    by (auto simp: vote_of_None filter_empty_conv)
  with assms show ?thesis
    by (simp add: handleVote_def select_vote_def maybeSingle_def done_empty_def
        insert_vote_def issue_def Let_def)
qed

lemma handleVote_repeat_vote:
  assumes "user c = Some u" and "\<not> voting c"
    and "vote_of u (p_id (card_post c)) vs = None"
    and "i \<notin> set (map v_id vs)"
    and "\<not> rejects e (SelectVote u (p_id (card_post c)))"
    and "\<not> rejects e (DeleteVote i)"
    and "votes b = vs @ [\<lparr>v_id = i, user_id = u, post_id = p_id (card_post c),
                          vote_type = t, v_created_at = ts\<rparr>]"
  shows "votes (snd (handleVote e t (c, b))) = vs"
proof -
  from assms(3) have "filter (\<lambda>v. user_id v = u \<and> post_id v = p_id (card_post c)) vs = []"
    by (auto simp: vote_of_None filter_empty_conv)
  moreover from assms(4) have "filter (\<lambda>v. v_id v \<noteq> i) vs = vs"
    by (auto simp: filter_id_conv)
  ultimately show ?thesis using assms
    by (simp add: handleVote_def select_vote_def maybeSingle_def done_empty_def
        delete_vote_def issue_def Let_def)
qed

lemma handleVote_keeps_invariant:
  assumes "one_vote_per_pair (votes b)"
    and "\<forall>u. user c = Some u \<longrightarrow> \<not> rejects e (SelectVote u (p_id (card_post c)))"
  shows "one_vote_per_pair (votes (snd (handleVote e t (c, b))))"
proof (cases "user c")
  case None
  with assms(1) show ?thesis by (simp add: handleVote_def)
next
  case (Some u)
  show ?thesis
  proof (cases "voting c")
    case True
    with Some assms(1) show ?thesis by (simp add: handleVote_def)
  next
    case False
    let ?pid = "p_id (card_post c)"
    from assms(2) Some have ok: "\<not> rejects e (SelectVote u ?pid)" by simp
    note run = handleVote_run [OF Some False assms(1) ok, of t]
    show ?thesis
    proof (cases "vote_of u ?pid (votes b)")
      case None
      then have "(u, ?pid) \<notin> set (map (\<lambda>v. (user_id v, post_id v)) (votes b))"
        by (auto simp: vote_of_None)
      with assms(1) None show ?thesis
        by (simp add: run insert_vote_def issue_def Let_def one_vote_per_pair_def)
    next
      case (Some v)
      let ?upd = "\<lambda>x. if v_id x = v_id v then x\<lparr>vote_type := t\<rparr> else x"
      have keys: "map (\<lambda>x. (user_id x, post_id x)) (map ?upd (votes b))
            = map (\<lambda>x. (user_id x, post_id x)) (votes b)"
        by (simp add: comp_def if_distrib cong: if_cong)
      have upd: "one_vote_per_pair (map ?upd (votes b))"
        using assms(1) unfolding one_vote_per_pair_def keys .
      have del: "one_vote_per_pair (filter (\<lambda>x. v_id x \<noteq> v_id v) (votes b))"
        using assms(1) by (simp add: one_vote_per_pair_def distinct_map_filter)
      from assms(1) Some upd del show ?thesis
        by (simp add: run delete_vote_def update_vote_def issue_def Let_def)
    qed
  qed
qed

text \<open>
  Claim C10. A call of the vote handler made while no user is signed in, or while the
  card's \<open>voting\<close> flag says a vote request is in flight, returns at once: the card and
  the record store, the list of requests received included, are what they were.
\<close>

theorem handleVote_guard:
  "user c = None \<or> voting c \<Longrightarrow> handleVote e t (c, b) = (c, b)"
  by (auto simp: handleVote_def split: option.splits)

theorem handleVote_guard_witness:
  "(user (fx_card\<lparr>user := None\<rparr>) = None \<or> voting (fx_card\<lparr>user := None\<rparr>))
   \<and> handleVote fx_env 1 (fx_card\<lparr>user := None\<rparr>, fx_store []) = (fx_card\<lparr>user := None\<rparr>, fx_store [])
   \<and> (user (fx_card\<lparr>voting := True\<rparr>) = None \<or> voting (fx_card\<lparr>voting := True\<rparr>))
   \<and> handleVote fx_env (- 1) (fx_card\<lparr>voting := True\<rparr>, fx_store [fx_vote 1])
       = (fx_card\<lparr>voting := True\<rparr>, fx_store [fx_vote 1])"
  using handleVote_guard [of "fx_card\<lparr>user := None\<rparr>" fx_env 1 "fx_store []"]
    handleVote_guard [of "fx_card\<lparr>voting := True\<rparr>" fx_env "- 1" "fx_store [fx_vote 1]"]
  by (simp add: fx_card_def)

text \<open>
  With the lookup answered, the handler does what the contract of the vote reconciler
  says. For a signed-in user \<open>u\<close>, the card's post and a requested direction \<open>t\<close>
  (\<open>1\<close> for up, \<open>- 1\<close> for down), on a vote table with at most one row per (user, post)
  pair and distinct row identifiers, the handler sends the lookup and then exactly one
  mutation, fixed by the user's vote on the post: with no vote, an insert of a row with
  direction \<open>t\<close>; with a vote of direction \<open>t\<close>, the deletion of that row; with a vote
  of the opposite direction, the update of that row to \<open>t\<close>. Where the backend accepts
  the mutation, the table changes accordingly.
\<close>

lemma handleVote_reconciles:
  assumes "user c = Some u" and "\<not> voting c"
    and "one_vote_per_pair (votes b)" and "distinct (map v_id (votes b))"
    and "\<not> rejects e (SelectVote u (p_id (card_post c)))"
    and "t = 1 \<or> t = - 1"
  shows "let pid = p_id (card_post c); b' = snd (handleVote e t (c, b)) in
    (vote_of u pid (votes b) = None \<longrightarrow>
       requests b' = requests b @ [SelectVote u pid, InsertVote u pid t] \<and>
       (\<not> rejects e (InsertVote u pid t) \<and> gen_id e \<notin> set (map v_id (votes b)) \<longrightarrow>
          votes b' = votes b @
            [\<lparr>v_id = gen_id e, user_id = u, post_id = pid, vote_type = t, v_created_at = now e\<rparr>])) \<and>
    (\<forall>v. vote_of u pid (votes b) = Some v \<and> vote_type v = t \<longrightarrow>
       requests b' = requests b @ [SelectVote u pid, DeleteVote (v_id v)] \<and>
       (\<not> rejects e (DeleteVote (v_id v)) \<longrightarrow> votes b' = remove1 v (votes b))) \<and>
    (\<forall>v. vote_of u pid (votes b) = Some v \<and> vote_type v = - t \<longrightarrow>
       requests b' = requests b @ [SelectVote u pid, UpdateVote (v_id v) t] \<and>
       (\<not> rejects e (UpdateVote (v_id v) t) \<longrightarrow>
          votes b' = map (\<lambda>x. if x = v then x\<lparr>vote_type := t\<rparr> else x) (votes b)))"
proof -
  let ?pid = "p_id (card_post c)"
  let ?b' = "snd (handleVote e t (c, b))"
  note run = handleVote_run [OF assms(1,2,3,5), of t]
  have none: "requests ?b' = requests b @ [SelectVote u ?pid, InsertVote u ?pid t] \<and>
       (\<not> rejects e (InsertVote u ?pid t) \<and> gen_id e \<notin> set (map v_id (votes b)) \<longrightarrow>
          votes ?b' = votes b @
            [\<lparr>v_id = gen_id e, user_id = u, post_id = ?pid, vote_type = t, v_created_at = now e\<rparr>])"
    if "vote_of u ?pid (votes b) = None"
    using that by (simp add: run insert_vote_def issue_def Let_def)
  have same: "requests ?b' = requests b @ [SelectVote u ?pid, DeleteVote (v_id v)] \<and>
       (\<not> rejects e (DeleteVote (v_id v)) \<longrightarrow> votes ?b' = remove1 v (votes b))"
    if "vote_of u ?pid (votes b) = Some v" and "vote_type v = t" for v
  proof -
    from that(1) have "v \<in> set (votes b)" by (simp add: vote_of_Some)
    with assms(4) have "filter (\<lambda>x. v_id x \<noteq> v_id v) (votes b) = remove1 v (votes b)"
      by (rule remove_by_key)
    with that show ?thesis by (simp add: run delete_vote_def issue_def Let_def)
  qed
  have other: "requests ?b' = requests b @ [SelectVote u ?pid, UpdateVote (v_id v) t] \<and>
       (\<not> rejects e (UpdateVote (v_id v) t) \<longrightarrow>
          votes ?b' = map (\<lambda>x. if x = v then x\<lparr>vote_type := t\<rparr> else x) (votes b))"
    if "vote_of u ?pid (votes b) = Some v" and "vote_type v = - t" for v
  proof -
    from that(1) have "v \<in> set (votes b)" by (simp add: vote_of_Some)
    with assms(4) have "map (\<lambda>x. if v_id x = v_id v then x\<lparr>vote_type := t\<rparr> else x) (votes b)
        = map (\<lambda>x. if x = v then x\<lparr>vote_type := t\<rparr> else x) (votes b)"
      by (rule update_by_key)
    moreover from that(2) assms(6) have "vote_type v \<noteq> t" by auto
    ultimately show ?thesis using that(1) by (simp add: run update_vote_def issue_def Let_def)
  qed
  from none same other show ?thesis unfolding Let_def by blast
qed

lemma handleVote_reconciles_sample:
  "requests (snd (handleVote fx_env 1 (fx_card, fx_store []))) =
      [SelectVote ''u1'' ''p1'', InsertVote ''u1'' ''p1'' 1]
   \<and> votes (snd (handleVote fx_env 1 (fx_card, fx_store []))) =
      [\<lparr>v_id = ''v9'', user_id = ''u1'', post_id = ''p1'', vote_type = 1, v_created_at = 1000\<rparr>]
   \<and> requests (snd (handleVote fx_env 1 (fx_card, fx_store [fx_vote 1]))) =
      [SelectVote ''u1'' ''p1'', DeleteVote ''v1'']
   \<and> votes (snd (handleVote fx_env 1 (fx_card, fx_store [fx_vote 1]))) = []
   \<and> requests (snd (handleVote fx_env 1 (fx_card, fx_store [fx_vote (- 1)]))) =
      [SelectVote ''u1'' ''p1'', UpdateVote ''v1'' 1]
   \<and> votes (snd (handleVote fx_env 1 (fx_card, fx_store [fx_vote (- 1)]))) = [fx_vote 1]"
  using handleVote_reconciles [of fx_card "''u1''" "fx_store []" fx_env 1]
    handleVote_reconciles [of fx_card "''u1''" "fx_store [fx_vote 1]" fx_env 1]
    handleVote_reconciles [of fx_card "''u1''" "fx_store [fx_vote (- 1)]" fx_env 1]
  by (simp add: fx_defs one_vote_per_pair_def vote_of_def Let_def)

text \<open>
  Claim C1. The claim has the mutation fixed by the user's vote on the post: a vote of
  the requested direction is deleted. The handler reads only \<^verbatim>\<open>data\<close> of the lookup and
  never its \<^verbatim>\<open>error\<close>, so a lookup that the backend turns down looks to it like no vote:
  user \<open>u1\<close> holds the up-vote \<open>v1\<close> on post \<open>p1\<close> and asks for up again; the handler
  sends an insert and no deletion, and the table then holds the old row and a new one.
\<close>

theorem handleVote_failed_lookup_inserts:
  "user fx_card = Some ''u1'' \<and> \<not> voting fx_card \<and> p_id (card_post fx_card) = ''p1''
   \<and> vote_of ''u1'' ''p1'' (votes (fx_store [fx_vote 1])) = Some (fx_vote 1)
   \<and> vote_type (fx_vote 1) = 1
   \<and> rejects fx_env_no_lookup (SelectVote ''u1'' ''p1'')
   \<and> requests (snd (handleVote fx_env_no_lookup 1 (fx_card, fx_store [fx_vote 1]))) =
       [SelectVote ''u1'' ''p1'', InsertVote ''u1'' ''p1'' 1]
   \<and> votes (snd (handleVote fx_env_no_lookup 1 (fx_card, fx_store [fx_vote 1]))) =
       [fx_vote 1,
        \<lparr>v_id = ''v9'', user_id = ''u1'', post_id = ''p1'', vote_type = 1, v_created_at = 1000\<rparr>]"
  by (simp add: fx_defs fx_env_no_lookup_def vote_of_def handleVote_def select_vote_def
      insert_vote_def issue_def failed_def done_empty_def Let_def)

text \<open>
  Claim C2. From a table with no vote of user \<open>u\<close> on the card's post, two runs of the
  handler with the same direction, both served by the backend, leave no row for the
  pair: the first run creates the row, the second deletes it, and the table is again
  what it was.
\<close>

theorem vote_twice_leaves_no_row:
  assumes "user c = Some u" and "\<not> voting c"
    and "vote_of u (p_id (card_post c)) (votes b) = None"
    and "gen_id e1 \<notin> set (map v_id (votes b))"
    and "\<forall>r. \<not> rejects e1 r" and "\<forall>r. \<not> rejects e2 r"
  shows "let pid = p_id (card_post c);
             s1 = handleVote e1 t (c, b);
             s2 = handleVote e2 t s1 in
         vote_of u pid (votes (snd s1)) =
           Some \<lparr>v_id = gen_id e1, user_id = u, post_id = pid, vote_type = t, v_created_at = now e1\<rparr>
         \<and> vote_of u pid (votes (snd s2)) = None
         \<and> votes (snd s2) = votes b"
proof -
  let ?pid = "p_id (card_post c)"
  let ?row = "\<lparr>v_id = gen_id e1, user_id = u, post_id = ?pid, vote_type = t, v_created_at = now e1\<rparr>"
  let ?c1 = "c\<lparr>voting := False\<rparr>"
  let ?b1 = "b\<lparr>votes := votes b @ [?row],
               requests := requests b @ [SelectVote u ?pid, InsertVote u ?pid t]\<rparr>"
  have first: "handleVote e1 t (c, b) = (?c1, ?b1)"
    using assms(1-5) by (simp add: handleVote_first_vote)
  have found: "vote_of u ?pid (votes ?b1) = Some ?row"
    using assms(3) by (simp add: vote_of_def find_append_cases)
  have second: "votes (snd (handleVote e2 t (?c1, ?b1))) = votes b"
    using assms(1,3,4,6)
    by (intro handleVote_repeat_vote [where u = u and i = "gen_id e1" and ts = "now e1"]) simp_all
  from first found second assms(3) show ?thesis by (simp add: Let_def)
qed

theorem vote_twice_leaves_no_row_witness:
  "vote_of ''u1'' ''p1'' (votes (snd (handleVote fx_env 1 (fx_card, fx_store [])))) =
      Some \<lparr>v_id = ''v9'', user_id = ''u1'', post_id = ''p1'', vote_type = 1, v_created_at = 1000\<rparr>
   \<and> vote_of ''u1'' ''p1''
        (votes (snd (handleVote fx_env 1 (handleVote fx_env 1 (fx_card, fx_store []))))) = None
   \<and> votes (snd (handleVote fx_env 1 (handleVote fx_env 1 (fx_card, fx_store [])))) = []"
  using vote_twice_leaves_no_row [of fx_card "''u1''" "fx_store []" fx_env fx_env 1]
  by (simp add: fx_defs vote_of_def Let_def)

text \<open>
  With the lookup answered, a run of the handler keeps the invariant that the vote table
  has at most one row per (user, post) pair. When the user's vote on the post has the
  direction opposite to the requested one, the run sends an update of that row and no
  insert, the table keeps the same rows in the same places (identifier, user and post
  of each), and, the update accepted, the user's one row on the post carries the
  requested direction.
\<close>

lemma handleVote_switch_in_place:
  assumes "one_vote_per_pair (votes b)"
    and "\<forall>u. user c = Some u \<longrightarrow> \<not> rejects e (SelectVote u (p_id (card_post c)))"
    and "t = 1 \<or> t = - 1"
  shows "let pid = p_id (card_post c); b' = snd (handleVote e t (c, b)) in
     one_vote_per_pair (votes b') \<and>
     (\<forall>u v. user c = Some u \<and> \<not> voting c \<and>
            vote_of u pid (votes b) = Some v \<and> vote_type v = - t \<longrightarrow>
        requests b' = requests b @ [SelectVote u pid, UpdateVote (v_id v) t] \<and>
        map (\<lambda>x. (v_id x, user_id x, post_id x)) (votes b') =
          map (\<lambda>x. (v_id x, user_id x, post_id x)) (votes b) \<and>
        (\<not> rejects e (UpdateVote (v_id v) t) \<longrightarrow>
           vote_of u pid (votes b') = Some (v\<lparr>vote_type := t\<rparr>)))"
proof -
  let ?pid = "p_id (card_post c)"
  let ?b' = "snd (handleVote e t (c, b))"
  have inv: "one_vote_per_pair (votes ?b')"
    using assms(1,2) by (rule handleVote_keeps_invariant)
  have switch: "requests ?b' = requests b @ [SelectVote u ?pid, UpdateVote (v_id v) t] \<and>
        map (\<lambda>x. (v_id x, user_id x, post_id x)) (votes ?b') =
          map (\<lambda>x. (v_id x, user_id x, post_id x)) (votes b) \<and>
        (\<not> rejects e (UpdateVote (v_id v) t) \<longrightarrow>
           vote_of u ?pid (votes ?b') = Some (v\<lparr>vote_type := t\<rparr>))"
    if u: "user c = Some u" and nv: "\<not> voting c"
      and v: "vote_of u ?pid (votes b) = Some v" and opp: "vote_type v = - t" for u v
  proof -
    from assms(2) u have ok: "\<not> rejects e (SelectVote u ?pid)" by simp
    note run = handleVote_run [OF u nv assms(1) ok, of t]
    from opp assms(3) have ne: "vote_type v \<noteq> t" by auto
    let ?upd = "\<lambda>x. if v_id x = v_id v then x\<lparr>vote_type := t\<rparr> else x"
    have keys: "map (\<lambda>x. (v_id x, user_id x, post_id x)) (map ?upd (votes b))
            = map (\<lambda>x. (v_id x, user_id x, post_id x)) (votes b)"
      by (simp add: comp_def if_distrib cong: if_cong)
    have "find (\<lambda>x. user_id x = u \<and> post_id x = ?pid) (map ?upd (votes b))
          = map_option ?upd (find (\<lambda>x. user_id x = u \<and> post_id x = ?pid) (votes b))"
      by (rule find_map_stable) simp
    with v have found: "vote_of u ?pid (map ?upd (votes b)) = Some (v\<lparr>vote_type := t\<rparr>)"
      by (simp add: vote_of_def)
    from v ne keys found show ?thesis
      by (simp add: run update_vote_def issue_def Let_def)
  qed
  from inv switch show ?thesis unfolding Let_def by blast
qed

lemma handleVote_switch_in_place_sample:
  "one_vote_per_pair (votes (fx_store [fx_vote (- 1)]))
   \<and> one_vote_per_pair (votes (snd (handleVote fx_env 1 (fx_card, fx_store [fx_vote (- 1)]))))
   \<and> requests (snd (handleVote fx_env 1 (fx_card, fx_store [fx_vote (- 1)]))) =
       [SelectVote ''u1'' ''p1'', UpdateVote ''v1'' 1]
   \<and> map (\<lambda>x. (v_id x, user_id x, post_id x))
       (votes (snd (handleVote fx_env 1 (fx_card, fx_store [fx_vote (- 1)])))) =
       [(''v1'', ''u1'', ''p1'')]
   \<and> vote_of ''u1'' ''p1'' (votes (snd (handleVote fx_env 1 (fx_card, fx_store [fx_vote (- 1)]))))
       = Some (fx_vote 1)"
  using handleVote_switch_in_place [of "fx_store [fx_vote (- 1)]" fx_card fx_env 1]
  by (simp add: fx_defs one_vote_per_pair_def vote_of_def Let_def)

text \<open>
  Claim C3. The claim has a vote of the opposite direction update the one row of the
  pair in place and never insert a second one. With the lookup turned down the handler
  does insert: the table holds the one down-vote \<open>v1\<close> of user \<open>u1\<close> on post \<open>p1\<close> and
  satisfies the invariant; the user asks for up; the handler sends an insert and no
  update, the down-vote stays as it was, and the table ends with two rows for the pair,
  the invariant broken.
\<close>

theorem handleVote_failed_lookup_breaks_invariant:
  "one_vote_per_pair (votes (fx_store [fx_vote (- 1)]))
   \<and> vote_of ''u1'' ''p1'' (votes (fx_store [fx_vote (- 1)])) = Some (fx_vote (- 1))
   \<and> rejects fx_env_no_lookup (SelectVote ''u1'' ''p1'')
   \<and> requests (snd (handleVote fx_env_no_lookup 1 (fx_card, fx_store [fx_vote (- 1)]))) =
       [SelectVote ''u1'' ''p1'', InsertVote ''u1'' ''p1'' 1]
   \<and> map (\<lambda>x. (v_id x, user_id x, post_id x, vote_type x))
       (votes (snd (handleVote fx_env_no_lookup 1 (fx_card, fx_store [fx_vote (- 1)])))) =
       [(''v1'', ''u1'', ''p1'', - 1), (''v9'', ''u1'', ''p1'', 1)]
   \<and> \<not> one_vote_per_pair
         (votes (snd (handleVote fx_env_no_lookup 1 (fx_card, fx_store [fx_vote (- 1)]))))"
  by (simp add: fx_defs fx_env_no_lookup_def vote_of_def one_vote_per_pair_def handleVote_def
      select_vote_def insert_vote_def issue_def failed_def done_empty_def Let_def)

section \<open>The moderation delete\<close>

text \<open>
  Claim C4. For an admin's card that is not already deleting, and whatever number of
  vote rows refer to its post, a confirmed delete sends first the deletion of all vote
  rows of the post and then the deletion of the post. The post deletion is sent, and
  where accepted carried out, also when the vote deletion was turned down (the votes
  then stay); when the backend accepts both, no vote row of the post and no post of
  that identifier remain, and the votes of other posts are untouched.
\<close>

theorem handleDelete_votes_then_post:
  assumes "card_profile c = Some pr" and "is_admin pr" and "\<not> deleting c"
  shows "let pid = p_id (card_post c); b' = snd (handleDelete e True (c, b)) in
     requests b' = requests b @ [DeleteVotesOfPost pid, DeletePost pid] \<and>
     (\<not> rejects e (DeletePost pid) \<longrightarrow> posts b' = filter (\<lambda>x. p_id x \<noteq> pid) (posts b)) \<and>
     (rejects e (DeleteVotesOfPost pid) \<longrightarrow> votes b' = votes b) \<and>
     (\<not> rejects e (DeleteVotesOfPost pid) \<and> \<not> rejects e (DeletePost pid) \<longrightarrow>
        filter (\<lambda>v. post_id v = pid) (votes b') = [] \<and>
        filter (\<lambda>x. p_id x = pid) (posts b') = [] \<and>
        votes b' = filter (\<lambda>v. post_id v \<noteq> pid) (votes b))"
  using assms
  by (simp add: handleDelete_def delete_votes_of_post_def delete_post_def issue_def Let_def
      failed_def done_empty_def filter_empty_conv split: option.splits)

theorem handleDelete_votes_then_post_witness:
  "requests (snd (handleDelete fx_env True (fx_card\<lparr>card_profile := Some fx_admin\<rparr>, fx_store fx_votes3)))
     = [DeleteVotesOfPost ''p1'', DeletePost ''p1'']
   \<and> map v_id (votes (snd (handleDelete fx_env True
         (fx_card\<lparr>card_profile := Some fx_admin\<rparr>, fx_store fx_votes3)))) = [''v2'']
   \<and> posts (snd (handleDelete fx_env True
         (fx_card\<lparr>card_profile := Some fx_admin\<rparr>, fx_store fx_votes3))) = []
   \<and> requests (snd (handleDelete fx_env_no_vote_delete True
         (fx_card\<lparr>card_profile := Some fx_admin\<rparr>, fx_store fx_votes3)))
     = [DeleteVotesOfPost ''p1'', DeletePost ''p1'']
   \<and> posts (snd (handleDelete fx_env_no_vote_delete True
         (fx_card\<lparr>card_profile := Some fx_admin\<rparr>, fx_store fx_votes3))) = []
   \<and> votes (snd (handleDelete fx_env_no_vote_delete True
         (fx_card\<lparr>card_profile := Some fx_admin\<rparr>, fx_store fx_votes3))) = fx_votes3"
  using handleDelete_votes_then_post [of "fx_card\<lparr>card_profile := Some fx_admin\<rparr>" fx_admin
      fx_env "fx_store fx_votes3"]
    handleDelete_votes_then_post [of "fx_card\<lparr>card_profile := Some fx_admin\<rparr>" fx_admin
      fx_env_no_vote_delete "fx_store fx_votes3"]
  by (simp add: fx_defs fx_admin_def fx_votes3_def fx_env_no_vote_delete_def Let_def post.defs)

section \<open>The feed loader\<close>

lemma with_author_simps:
  "p_id (with_author p a v) = p_id p"
  "title (with_author p a v) = title p"
  "content (with_author p a v) = content p"
  "url (with_author p a v) = url p"
  "author_id (with_author p a v) = author_id p"
  "score (with_author p a v) = score p"
  "created_at (with_author p a v) = created_at p"
  "updated_at (with_author p a v) = updated_at p"
  "author_username (with_author p a v) = a"
  "user_vote (with_author p a v) = v"
  "post.truncate (with_author p a v) = p"
  by (simp_all add: with_author_def post.defs postWithAuthor.defs)

lemma set_uniq: "set (uniq xs) = set xs"
  by (simp add: uniq_def)



lemma set_feed_order: "set (feed_order ps) = set ps"
  by (simp add: feed_order_def)

lemma mset_feed_order: "mset (feed_order ps) = mset ps"
  by (simp add: feed_order_def)

lemma sorted_feed_order: "sorted (map (\<lambda>p. (- score p, - created_at p)) (feed_order ps))"
  by (simp add: feed_order_def)

lemma feed_order_nth:
  assumes "j \<le> i" and "i < length (feed_order ps)"
  shows "score (feed_order ps ! i) < score (feed_order ps ! j) \<or>
         (score (feed_order ps ! i) = score (feed_order ps ! j) \<and>
          created_at (feed_order ps ! i) \<le> created_at (feed_order ps ! j))"
proof -
  let ?k = "\<lambda>p. (- score p, - created_at p)"
  let ?xs = "feed_order ps"
  from assms have "map ?k ?xs ! j \<le> map ?k ?xs ! i"
    using sorted_feed_order [of ps] by (simp add: sorted_iff_nth_mono del: nth_map)
  with assms have "?k (?xs ! j) \<le> ?k (?xs ! i)" by simp
  then show ?thesis by auto
qed

text \<open>What the page holds after a load whose post query was answered.\<close>

lemma loadPosts_feed:
  assumes "\<not> rejects e SelectFeedPosts"
  shows "fp_posts (fst (loadPosts e (f, b))) =
     map (\<lambda>p. with_author p
            (Some (author_username_of
               (if rejects e (SelectProfilesIn (uniq (map author_id (feed_order (posts b)))))
                then None
                else Some (map (\<lambda>pr. (pr_id pr, username pr))
                       (filter (\<lambda>pr. pr_id pr \<in> set (map author_id (feed_order (posts b))))
                          (profiles b)))) p))
            (Some (user_vote_of
               (case fp_user f of
                  None \<Rightarrow> []
                | Some u \<Rightarrow>
                    if rejects e (SelectVotesOfUser u) then []
                    else map (\<lambda>v. (post_id v, vote_type v))
                           (filter (\<lambda>v. user_id v = u) (votes b))) p)))
       (feed_order (posts b))"
  using assms
  by (cases "feed_order (posts b) = []")
    (auto simp: loadPosts_def select_feed_posts_def select_profiles_in_def
      select_votes_of_user_def issue_def failed_def Let_def set_uniq
      split: option.splits prod.splits)


lemmas fx_feed_defs = fx_env_def fx_bob_def fx_posts3_def fx_blog_def fx_feed_def fx_votes3_def

lemma fx_feed_loaded:
  "fp_posts (fst (loadPosts fx_env (fx_feed, fx_blog))) =
     [with_author (fx_posts3 ! 2) (Some ''bob'') (Some 0),
      with_author (fx_posts3 ! 1) (Some ''Unknown'') (Some (- 1)),
      with_author (fx_posts3 ! 0) (Some ''bob'') (Some 1)]"
  by (simp add: loadPosts_feed fx_feed_defs feed_order_def author_username_of_def
      user_vote_of_def or_unknown_def or_zero_def)

text \<open>
  Claim C5. After a load whose post query was answered, the page holds the posts of the
  store, each once, in an order where of two posts with different scores the one with
  the higher score stands first, and of two posts with equal scores and different
  creation times the more recent one stands first.
\<close>

theorem loadPosts_order:
  assumes "\<not> rejects e SelectFeedPosts"
  shows "let ps = fp_posts (fst (loadPosts e (f, b))) in
     mset (map post.truncate ps) = mset (posts b) \<and>
     (\<forall>i j. i < length ps \<and> j < length ps \<and> score (ps ! j) < score (ps ! i) \<longrightarrow> i < j) \<and>
     (\<forall>i j. i < length ps \<and> j < length ps \<and> score (ps ! j) = score (ps ! i) \<and>
            created_at (ps ! j) < created_at (ps ! i) \<longrightarrow> i < j)"
proof -
  let ?xs = "feed_order (posts b)"
  let ?ps = "fp_posts (fst (loadPosts e (f, b)))"
  note ps = loadPosts_feed [OF assms, of f b]
  have len: "length ?ps = length ?xs" by (simp add: ps)
  have sc: "score (?ps ! i) = score (?xs ! i)" "created_at (?ps ! i) = created_at (?xs ! i)"
    if "i < length ?xs" for i
    using that by (simp_all add: ps with_author_simps)
  have all: "mset (map post.truncate ?ps) = mset (posts b)"
    by (simp add: ps comp_def with_author_simps mset_feed_order)
  have ord: "i < j"
    if "i < length ?ps" "j < length ?ps"
      and "score (?ps ! j) < score (?ps ! i) \<or>
           (score (?ps ! j) = score (?ps ! i) \<and> created_at (?ps ! j) < created_at (?ps ! i))"
    for i j
  proof (rule ccontr)
    assume "\<not> i < j"
    then have "j \<le> i" by simp
    with that(1) len have "score (?xs ! i) < score (?xs ! j) \<or>
         (score (?xs ! i) = score (?xs ! j) \<and> created_at (?xs ! i) \<le> created_at (?xs ! j))"
      by (intro feed_order_nth) simp_all
    with that len show False by (auto simp: sc)
  qed
  from all ord show ?thesis unfolding Let_def by blast
qed

theorem loadPosts_order_witness:
  "\<not> rejects fx_env SelectFeedPosts
   \<and> map (\<lambda>p. (p_id p, score p, created_at p)) (posts fx_blog) =
       [(''p1'', 0, 5), (''p2'', 3, 7), (''p3'', 3, 9)]
   \<and> map (\<lambda>p. (p_id p, score p, created_at p)) (fp_posts (fst (loadPosts fx_env (fx_feed, fx_blog)))) =
       [(''p3'', 3, 9), (''p2'', 3, 7), (''p1'', 0, 5)]"
  using loadPosts_order [of fx_env fx_feed fx_blog]
  by (simp add: fx_feed_loaded with_author_simps) (simp add: fx_feed_defs)




section \<open>The profile page\<close>

lemma foldl_add_score:
  "foldl (\<lambda>sum post. sum + score post) a ps = a + sum_list (map score ps)"
  by (induction ps arbitrary: a) simp_all

lemma totalKarma_sum: "totalKarma ps = sum_list (map score ps)"
  by (simp add: totalKarma_def foldl_add_score)

text \<open>
  The running maximum of \<^verbatim>\<open>reduce\<close>: it is the start value when nothing beats it, and
  otherwise the first element that beats the start value and everything before it and is
  not beaten by anything after it.
\<close>

lemma foldl_max_score:
  fixes ps :: "postWithAuthor list"
  defines "step \<equiv> (\<lambda>mx post. if score post > score mx then post else mx)"
  shows "(\<forall>x\<in>set ps. score x \<le> score (foldl step m ps)) \<and>
         score m \<le> score (foldl step m ps) \<and>
         (foldl step m ps = m \<or>
          (\<exists>i<length ps. foldl step m ps = ps ! i \<and> score m < score (ps ! i) \<and>
             (\<forall>j<i. score (ps ! j) < score (ps ! i))))"
proof (induction ps arbitrary: m)
  case Nil
  show ?case by simp
next
  case (Cons x xs)
  let ?m' = "step m x"
  let ?r = "foldl step ?m' xs"
  have r: "foldl step m (x # xs) = ?r" by simp
  note IH = Cons.IH [of ?m']
  have m': "score m \<le> score ?m'" "score x \<le> score ?m'" by (simp_all add: step_def)
  from IH m' have bound: "(\<forall>y\<in>set (x # xs). score y \<le> score ?r) \<and> score m \<le> score ?r"
    by auto
  have pos: "?r = m \<or>
          (\<exists>i<length (x # xs). ?r = (x # xs) ! i \<and> score m < score ((x # xs) ! i) \<and>
             (\<forall>j<i. score ((x # xs) ! j) < score ((x # xs) ! i)))"
  proof (cases "score x > score m")
    case True
    then have eq: "?m' = x" by (simp add: step_def)
    from IH eq consider "?r = x"
      | i where "i < length xs" "?r = xs ! i" "score x < score (xs ! i)"
          "\<forall>j<i. score (xs ! j) < score (xs ! i)"
      by auto
    then show ?thesis
    proof cases
      case 1
      with True have "0 < length (x # xs) \<and> ?r = (x # xs) ! 0 \<and> score m < score ((x # xs) ! 0) \<and>
          (\<forall>j<0. score ((x # xs) ! j) < score ((x # xs) ! 0))"
        by simp
      then show ?thesis by blast
    next
      case 2
      have "\<forall>j<Suc i. score ((x # xs) ! j) < score ((x # xs) ! Suc i)"
      proof (intro allI impI)
        fix j assume "j < Suc i"
        with 2 show "score ((x # xs) ! j) < score ((x # xs) ! Suc i)"
          by (cases j) simp_all
      qed
      with 2 True have "Suc i < length (x # xs) \<and> ?r = (x # xs) ! Suc i \<and>
          score m < score ((x # xs) ! Suc i) \<and>
          (\<forall>j<Suc i. score ((x # xs) ! j) < score ((x # xs) ! Suc i))"
        by simp
      then show ?thesis by blast
    qed
  next
    case False
    then have eq: "?m' = m" by (simp add: step_def)
    from IH eq consider "?r = m"
      | i where "i < length xs" "?r = xs ! i" "score m < score (xs ! i)"
          "\<forall>j<i. score (xs ! j) < score (xs ! i)"
      by auto
    then show ?thesis
    proof cases
      case 1
      then show ?thesis by simp
    next
      case 2
      have "\<forall>j<Suc i. score ((x # xs) ! j) < score ((x # xs) ! Suc i)"
      proof (intro allI impI)
        fix j assume "j < Suc i"
        with 2 False show "score ((x # xs) ! j) < score ((x # xs) ! Suc i)"
          by (cases j) simp_all
      qed
      with 2 have "Suc i < length (x # xs) \<and> ?r = (x # xs) ! Suc i \<and>
          score m < score ((x # xs) ! Suc i) \<and>
          (\<forall>j<Suc i. score ((x # xs) ! j) < score ((x # xs) ! Suc i))"
        by simp
      then show ?thesis by blast
    qed
  qed
  from bound pos show ?case unfolding r by blast
qed

lemma topPost_first_max:
  assumes "ps \<noteq> []"
  shows "\<exists>i<length ps. topPost ps = Some (ps ! i) \<and>
           (\<forall>j<length ps. score (ps ! j) \<le> score (ps ! i)) \<and>
           (\<forall>j<i. score (ps ! j) < score (ps ! i))"
proof -
  from assms obtain p rest where ps: "ps = p # rest" by (cases ps) auto
  let ?step = "\<lambda>mx post. if score post > score mx then post else mx"
  let ?r = "foldl ?step p rest"
  have top: "topPost ps = Some ?r" by (simp add: ps topPost_def)
  note fm = foldl_max_score [of rest p]
  from fm have ub: "\<forall>x\<in>set ps. score x \<le> score ?r" by (simp add: ps)
  then have ub': "\<forall>j<length ps. score (ps ! j) \<le> score ?r" by simp
  from fm consider "?r = p"
    | i where "i < length rest" "?r = rest ! i" "score p < score (rest ! i)"
        "\<forall>j<i. score (rest ! j) < score (rest ! i)"
    by auto
  then show ?thesis
  proof cases
    case 1
    with ub' top have "0 < length ps \<and> topPost ps = Some (ps ! 0) \<and>
        (\<forall>j<length ps. score (ps ! j) \<le> score (ps ! 0)) \<and>
        (\<forall>j<0. score (ps ! j) < score (ps ! 0))"
      by (simp add: ps)
    then show ?thesis by blast
  next
    case 2
    have "\<forall>j<Suc i. score (ps ! j) < score (ps ! Suc i)"
    proof (intro allI impI)
      fix j assume "j < Suc i"
      with 2 show "score (ps ! j) < score (ps ! Suc i)"
        by (cases j) (simp_all add: ps)
    qed
    moreover from 2 top have "topPost ps = Some (ps ! Suc i)" by (simp add: ps)
    moreover from ub' 2 have "\<forall>j<length ps. score (ps ! j) \<le> score (ps ! Suc i)"
      by (simp add: ps)
    moreover from 2 have "Suc i < length ps" by (simp add: ps)
    ultimately show ?thesis by blast
  qed
qed

lemma topPost_find:
  "topPost ps = find (\<lambda>p. \<forall>q\<in>set ps. score q \<le> score p) ps"
proof (cases "ps = []")
  case True
  then show ?thesis by (simp add: topPost_def)
next
  case False
  from topPost_first_max [OF False] obtain i where i: "i < length ps"
    and top: "topPost ps = Some (ps ! i)"
    and ub: "\<forall>j<length ps. score (ps ! j) \<le> score (ps ! i)"
    and first: "\<forall>j<i. score (ps ! j) < score (ps ! i)"
    by blast
  have "find (\<lambda>p. \<forall>q\<in>set ps. score q \<le> score p) ps = Some (ps ! i)"
    unfolding find_Some_iff
  proof (intro exI [of _ i] conjI allI impI)
    show "i < length ps" by (rule i)
    show "\<forall>q\<in>set ps. score q \<le> score (ps ! i)"
      using ub by (auto simp: in_set_conv_nth)
    show "ps ! i = ps ! i" by simp
  next
    fix j assume "j < i"
    with first have "score (ps ! j) < score (ps ! i)" by simp
    moreover from i have "ps ! i \<in> set ps" by simp
    ultimately show "\<not> (\<forall>q\<in>set ps. score q \<le> score (ps ! j))" by force
  qed
  with top show ?thesis by simp
qed


text \<open>
  Claim C7. For every list of posts of a profile, the empty one included: the karma is
  the sum of the scores of exactly these posts (\<open>0\<close> for none); the average is the
  string \<open>''0''\<close> for no posts and otherwise the quotient of the karma by the number of
  posts, \<open>length ps\<close>, rendered by \<^verbatim>\<open>toFixed(1)\<close>; the top post is absent for no posts
  and otherwise the first post of the list whose score no post of the list exceeds.
\<close>

theorem profile_stats:
  "totalKarma ps = sum_list (map score ps)
   \<and> totalKarma [] = 0
   \<and> avgScore js_div toFixed ps =
       (if ps = [] then ''0''
        else toFixed (js_div (sum_list (map score ps)) (int (length ps))) 1)
   \<and> topPost [] = None
   \<and> topPost ps = find (\<lambda>p. \<forall>q\<in>set ps. score q \<le> score p) ps
   \<and> (ps \<noteq> [] \<longrightarrow>
        (\<exists>i<length ps. topPost ps = Some (ps ! i) \<and>
           (\<forall>j<length ps. score (ps ! j) \<le> score (ps ! i)) \<and>
           (\<forall>j<i. score (ps ! j) < score (ps ! i))))"
proof -
  have "avgScore js_div toFixed ps =
       (if ps = [] then ''0''
        else toFixed (js_div (sum_list (map score ps)) (int (length ps))) 1)"
    by (simp add: avgScore_def totalKarma_sum)
  moreover have "topPost [] = None" by (simp add: topPost_def)
  moreover have "totalKarma [] = 0" by (simp add: totalKarma_def)
  ultimately show ?thesis
    using totalKarma_sum [of ps] topPost_find [of ps] topPost_first_max [of ps] by blast
qed

theorem profile_stats_witness:
  "[fx_scored ''a'' 4, fx_scored ''b'' 9, fx_scored ''c'' 9, fx_scored ''d'' 0] \<noteq> []
   \<and> totalKarma [fx_scored ''a'' 4, fx_scored ''b'' 9, fx_scored ''c'' 9, fx_scored ''d'' 0] = 22
   \<and> avgScore fx_js_div fx_toFixed
        [fx_scored ''a'' 4, fx_scored ''b'' 9, fx_scored ''c'' 9, fx_scored ''d'' 0] = ''5.5''
   \<and> avgScore fx_js_div fx_toFixed [] = ''0''
   \<and> topPost [fx_scored ''a'' 4, fx_scored ''b'' 9, fx_scored ''c'' 9, fx_scored ''d'' 0]
       = Some (fx_scored ''b'' 9)"
  using profile_stats [of "[fx_scored ''a'' 4, fx_scored ''b'' 9, fx_scored ''c'' 9, fx_scored ''d'' 0]"
      fx_js_div fx_toFixed]
  by (simp add: fx_scored_def fx_js_div_def fx_toFixed_def totalKarma_def avgScore_def topPost_def)

text \<open>
  Claim C8, amended. Whatever the sort selection, the filter \<open>text\<close> gives exactly the
  posts whose content is neither null nor empty and whose URL is null or empty, the
  filter \<open>link\<close> gives exactly the posts whose URL is neither null nor empty, and the
  filter \<open>all\<close> gives all posts; each post as often as the list has it.
\<close>

theorem applyFiltersAndSort_selects:
  "mset (applyFiltersAndSort sortBy FilterText ps) =
     filter_mset (\<lambda>p. content p \<noteq> None \<and> content p \<noteq> Some [] \<and> (url p = None \<or> url p = Some []))
       (mset ps)
   \<and> mset (applyFiltersAndSort sortBy FilterLink ps) =
     filter_mset (\<lambda>p. url p \<noteq> None \<and> url p \<noteq> Some []) (mset ps)
   \<and> mset (applyFiltersAndSort sortBy FilterAll ps) = mset ps"
proof -
  have t: "truthy s \<longleftrightarrow> s \<noteq> None \<and> s \<noteq> Some []" for s
    by (cases s) (simp_all add: truthy_def)
  have "(\<lambda>p::postWithAuthor. truthy (content p) \<and> \<not> truthy (url p)) =
        (\<lambda>p. content p \<noteq> None \<and> content p \<noteq> Some [] \<and> (url p = None \<or> url p = Some []))"
    by (auto simp: t)
  moreover have "(\<lambda>p::postWithAuthor. truthy (url p)) = (\<lambda>p. url p \<noteq> None \<and> url p \<noteq> Some [])"
    by (auto simp: t)
  ultimately show ?thesis by (simp add: applyFiltersAndSort_def)
qed

theorem applyFiltersAndSort_selects_witness:
  "map p_id fx_annotated = [''p1'', ''p2'', ''p3'']
   \<and> map p_id (applyFiltersAndSort Newest FilterText fx_annotated) = [''p1'']
   \<and> map p_id (applyFiltersAndSort Newest FilterLink fx_annotated) = [''p2'']
   \<and> map p_id (applyFiltersAndSort Newest FilterAll fx_annotated) = [''p3'', ''p2'', ''p1'']"
  using applyFiltersAndSort_selects [of Newest fx_annotated]
  by (simp add: fx_annotated_def fx_posts3_def applyFiltersAndSort_def truthy_def
      sort_key_of_def with_author_simps)

text \<open>
  Claim C8 as stated fails: the text post that the form creates from a title alone has a
  content that is not null (the empty string) and a null URL, and the filter \<open>text\<close>
  leaves it out. The strings of the sample form have no white space at either end, so
  that \<^verbatim>\<open>trim\<close> is the identity on them.
\<close>

theorem text_filter_drops_empty_content_counterexample:
  "posts (snd (handleSubmit id (fx_env\<lparr>gen_id := ''p3'', now := 9\<rparr>)
       (fx_form, \<lparr>votes = [], posts = [], profiles = [fx_bob], requests = []\<rparr>)))
     = [(fx_posts3 ! 2)\<lparr>score := 0\<rparr>]
   \<and> content (with_author (fx_posts3 ! 2) (Some ''bob'') (Some 0)) \<noteq> None
   \<and> url (with_author (fx_posts3 ! 2) (Some ''bob'') (Some 0)) = None
   \<and> applyFiltersAndSort Newest FilterText [with_author (fx_posts3 ! 2) (Some ''bob'') (Some 0)] = []"
  by (simp add: handleSubmit_def insert_post_def postData_def issue_def done_empty_def
      fx_env_def fx_form_def fx_posts3_def applyFiltersAndSort_def truthy_def with_author_simps)

section \<open>The create-post form\<close>

text \<open>
  Claim C9. The record that \<^verbatim>\<open>handleSubmit\<close> builds has a null URL when the selected
  type is text and a null content when it is link, so that never both are populated
  (exactly one is non-null); and a row that a submit adds to the post collection has
  these two fields.
\<close>

theorem postData_one_kind:
  "(cf_postType f = Text \<longrightarrow>
      np_url (postData trim f u) = None \<and> np_content (postData trim f u) = Some (trim (cf_content f)))
   \<and> (cf_postType f = Link \<longrightarrow>
      np_content (postData trim f u) = None \<and> np_url (postData trim f u) = Some (trim (cf_url f)))
   \<and> \<not> (np_content (postData trim f u) \<noteq> None \<and> np_url (postData trim f u) \<noteq> None)
   \<and> (np_content (postData trim f u) = None) \<noteq> (np_url (postData trim f u) = None)
   \<and> (\<forall>row\<in>set (posts (snd (handleSubmit trim e (f, b)))).
        row \<in> set (posts b) \<or> ((content row = None) \<noteq> (url row = None)))"
proof -
  have 1: "(cf_postType f = Text \<longrightarrow>
      np_url (postData trim f u) = None \<and> np_content (postData trim f u) = Some (trim (cf_content f)))
   \<and> (cf_postType f = Link \<longrightarrow>
      np_content (postData trim f u) = None \<and> np_url (postData trim f u) = Some (trim (cf_url f)))"
    by (simp add: postData_def)
  have 2: "(np_content (postData trim f u) = None) \<noteq> (np_url (postData trim f u) = None)"
    by (cases "cf_postType f") (simp_all add: postData_def)
  have 3: "row \<in> set (posts b) \<or> ((content row = None) \<noteq> (url row = None))"
    if "row \<in> set (posts (snd (handleSubmit trim e (f, b))))" for row
  proof (cases "cf_user f")
    case None
    with that show ?thesis by (simp add: handleSubmit_def)
  next
    case (Some w)
    have "(np_content (postData trim f w) = None) \<noteq> (np_url (postData trim f w) = None)"
      by (cases "cf_postType f") (simp_all add: postData_def)
    with that Some show ?thesis
      by (auto simp: handleSubmit_def insert_post_def issue_def Let_def failed_def done_empty_def
          split: if_splits)
  qed
  from 2 have 4: "\<not> (np_content (postData trim f u) \<noteq> None \<and> np_url (postData trim f u) \<noteq> None)"
    by auto
  from 3 have 5: "\<forall>row\<in>set (posts (snd (handleSubmit trim e (f, b)))).
        row \<in> set (posts b) \<or> ((content row = None) \<noteq> (url row = None))"
    by (rule ballI)
  show ?thesis
    by (intro conjI 1 [THEN conjunct1] 1 [THEN conjunct2] 4 2 5)
qed

theorem postData_one_kind_witness:
  "cf_postType fx_form = Text
   \<and> postData id fx_form ''u2'' =
       \<lparr>np_title = ''Title only'', np_author_id = ''u2'', np_content = Some '''', np_url = None\<rparr>
   \<and> cf_postType (fx_form\<lparr>cf_postType := Link\<rparr>) = Link
   \<and> postData id (fx_form\<lparr>cf_postType := Link\<rparr>) ''u2'' =
       \<lparr>np_title = ''Title only'', np_author_id = ''u2'', np_content = None,
        np_url = Some ''https://example.org''\<rparr>"
  using postData_one_kind [of fx_form id "''u2''" fx_env fx_blog]
    postData_one_kind [of "fx_form\<lparr>cf_postType := Link\<rparr>" id "''u2''" fx_env fx_blog]
  by (simp add: fx_form_def postData_def)


end
